theory Spec2Isabelle
  imports Main
begin

section \<open>The content graph as the build script sees it\<close>

text \<open>
  The build script (\<^verbatim>\<open>createPages\<close> and \<^verbatim>\<open>onCreateNode\<close>) asks the content
  source for the markdown nodes and registers one page per node. The query selects, for
  every edge, \<^verbatim>\<open>node { fields { slug } frontmatter { title } }\<close>.

  The derived-fields mapping of a node is an association list from field name to value;
  a node whose \<^verbatim>\<open>fields\<close> object is \<^verbatim>\<open>null\<close> has \<open>node_fields = None\<close>, and a
  mapping without the key \<^verbatim>\<open>slug\<close> answers \<^verbatim>\<open>undefined\<close>, which is \<open>None\<close> here.
\<close>

type_synonym md_fields = "(string \<times> string) list"

record md_frontmatter =
  title :: "string option"

record md_node =
  node_fields :: "md_fields option"
  frontmatter :: md_frontmatter

record edge =
  node :: md_node

record connection =
  edges :: "edge list"

record query_data =
  allMarkdownRemark :: connection

text \<open>
  \<^verbatim>\<open>result.errors\<close> is absent on success and an array of messages otherwise; any array,
  even an empty one, is truthy. \<^verbatim>\<open>result.data\<close> may be \<^verbatim>\<open>null\<close>.
\<close>

record query_result =
  errors :: "string list option"
  data :: "query_data option"

datatype sort_order = ASC | DESC

text \<open>The arguments of \<^verbatim>\<open>allMarkdownRemark(sort: {fields, order}, limit)\<close>.\<close>

record gql_query =
  q_sort_fields :: "string list"
  q_order :: sort_order
  q_limit :: nat

text \<open>The argument of \<^verbatim>\<open>createPage\<close>: path, component and the context object.\<close>

record context_bundle =
  ctx_slug :: "string option"
  ctx_previous :: "md_node option"
  ctx_next :: "md_node option"

record page =
  page_path :: "string option"
  page_component :: string
  page_context :: context_bundle

text \<open>
  What the promise returned by \<^verbatim>\<open>createPages\<close> settles to. It is rejected with the
  thrown \<^verbatim>\<open>result.errors\<close>, or with the \<^verbatim>\<open>TypeError\<close> of reading a property of
  \<^verbatim>\<open>null\<close> or \<^verbatim>\<open>undefined\<close>.
\<close>

datatype error = QueryErrors "string list" | TypeError

datatype outcome = Resolved | Rejected error

section \<open>createPages\<close>

definition blog_posts_query :: gql_query where
  "blog_posts_query =
     \<lparr>q_sort_fields = [''frontmatter___date''], q_order = DESC, q_limit = 1000\<rparr>"

text \<open>
  \<^verbatim>\<open>posts[j]\<close> on a JavaScript array: \<^verbatim>\<open>undefined\<close> (here \<open>None\<close>) for every index
  outside \<open>0 .. length - 1\<close>, the index \<open>-1\<close> included.
\<close>

definition js_index :: "'a list \<Rightarrow> int \<Rightarrow> 'a option" where
  "js_index xs j = (if 0 \<le> j \<and> j < int (length xs) then Some (xs ! nat j) else None)"

text \<open>
  \<^verbatim>\<open>const { node: x } = posts[j] || {}\<close>: the node of the edge at \<open>j\<close>, and
  \<^verbatim>\<open>undefined\<close> when there is no such edge (the empty object has no \<^verbatim>\<open>node\<close>).
\<close>

definition neighbour_node :: "edge list \<Rightarrow> int \<Rightarrow> md_node option" where
  "neighbour_node posts j = (case js_index posts j of None \<Rightarrow> None | Some e \<Rightarrow> Some (node e))"

text \<open>
  The object literal passed to \<^verbatim>\<open>createPage\<close> for the post at index \<open>i\<close>, once
  \<^verbatim>\<open>post.node.fields\<close> has been read as \<open>fs\<close>.
\<close>

definition page_args :: "string \<Rightarrow> edge list \<Rightarrow> nat \<Rightarrow> md_fields \<Rightarrow> page" where
  "page_args blogPost posts i fs =
     (let previous = neighbour_node posts (int i + 1);
          next_node = neighbour_node posts (int i - 1)
      in \<lparr>page_path = map_of fs ''slug'',
          page_component = blogPost,
          page_context =
            \<lparr>ctx_slug = map_of fs ''slug'', ctx_previous = previous, ctx_next = next_node\<rparr>\<rparr>)"

text \<open>
  The body of the \<^verbatim>\<open>forEach\<close> callback. Reading \<^verbatim>\<open>.slug\<close> of a \<^verbatim>\<open>null\<close>
  \<^verbatim>\<open>fields\<close> throws before \<^verbatim>\<open>createPage\<close> is called. The action creator
  \<open>createPage\<close> is a parameter, as in the source: it takes the registry from one state to
  the next.
\<close>

definition create_post_page ::
  "string \<Rightarrow> (page \<Rightarrow> 's \<Rightarrow> 's) \<Rightarrow> edge \<Rightarrow> nat \<Rightarrow> edge list \<Rightarrow> 's \<Rightarrow> error + 's" where
  "create_post_page blogPost createPage post i posts s =
     (case node_fields (node post) of
        None \<Rightarrow> Inl TypeError
      | Some fs \<Rightarrow> Inr (createPage (page_args blogPost posts i fs) s))"

text \<open>
  \<^verbatim>\<open>Array.prototype.forEach\<close>: the callback receives the element, its index and the
  whole array; an exception ends the loop and keeps the state reached so far.
\<close>

fun forEach ::
  "('a \<Rightarrow> nat \<Rightarrow> 'a list \<Rightarrow> 's \<Rightarrow> error + 's) \<Rightarrow> 'a list \<Rightarrow> nat \<Rightarrow> 'a list \<Rightarrow> 's
     \<Rightarrow> error option \<times> 's" where
  "forEach f [] i arr s = (None, s)"
| "forEach f (x # xs) i arr s =
     (case f x i arr s of
        Inl e \<Rightarrow> (Some e, s)
      | Inr s' \<Rightarrow> forEach f xs (Suc i) arr s')"

text \<open>The function given to \<^verbatim>\<open>then\<close>.\<close>

definition on_result ::
  "string \<Rightarrow> (page \<Rightarrow> 's \<Rightarrow> 's) \<Rightarrow> query_result \<Rightarrow> 's \<Rightarrow> outcome \<times> 's" where
  "on_result blogPost createPage result s =
     (case errors result of
        Some errs \<Rightarrow> (Rejected (QueryErrors errs), s)
      | None \<Rightarrow>
          (case data result of
             None \<Rightarrow> (Rejected TypeError, s)
           | Some d \<Rightarrow>
               (let posts = edges (allMarkdownRemark d)
                in case forEach (create_post_page blogPost createPage) posts 0 posts s of
                     (None, s') \<Rightarrow> (Resolved, s')
                   | (Some e, s') \<Rightarrow> (Rejected e, s'))))"

text \<open>
  \<open>blogPost\<close> is the resolved template path, \<open>graphql\<close> the content source's query
  function and \<open>createPage\<close> the page registry's action.
\<close>

definition createPages ::
  "string \<Rightarrow> (gql_query \<Rightarrow> query_result) \<Rightarrow> (page \<Rightarrow> 's \<Rightarrow> 's) \<Rightarrow> 's \<Rightarrow> outcome \<times> 's" where
  "createPages blogPost graphql createPage s =
     on_result blogPost createPage (graphql blog_posts_query) s"

text \<open>
  A page registry that keeps the register-page commands in the order they were issued.
\<close>

definition record_page :: "page \<Rightarrow> page list \<Rightarrow> page list" where
  "record_page p reg = reg @ [p]"

section \<open>onCreateNode\<close>

record node_internal =
  type :: string

record gatsby_node =
  node_id :: string
  internal :: node_internal
  parent :: "string option"
  gn_fields :: md_fields
  gn_title :: "string option"
  gn_date :: "int option"

text \<open>The argument of \<^verbatim>\<open>createNodeField\<close>.\<close>

record node_field =
  field_name :: string
  field_node :: gatsby_node
  field_value :: string

text \<open>
  \<open>createFilePath\<close> (of the file-system source plugin) and the action creator
  \<open>createNodeField\<close> are parameters, as in the source; \<open>s\<close> is the state of the node
  field store, which is where a node's derived fields live.
\<close>

definition onCreateNode ::
  "(gatsby_node \<Rightarrow> (string \<Rightarrow> gatsby_node option) \<Rightarrow> string) \<Rightarrow> (node_field \<Rightarrow> 's \<Rightarrow> 's)
     \<Rightarrow> (string \<Rightarrow> gatsby_node option) \<Rightarrow> gatsby_node \<Rightarrow> 's \<Rightarrow> 's" where
  "onCreateNode createFilePath createNodeField getNode n s =
     (if type (internal n) \<noteq> ''MarkdownRemark'' then s
      else (let v = createFilePath n getNode
            in createNodeField \<lparr>field_name = ''slug'', field_node = n, field_value = v\<rparr> s))"

section \<open>Sample inputs\<close>

text \<open>A content source that answers every query with the given edges, without errors.\<close>

definition fixed_source :: "edge list \<Rightarrow> gql_query \<Rightarrow> query_result" where
  "fixed_source posts q = \<lparr>errors = None, data = Some \<lparr>allMarkdownRemark = \<lparr>edges = posts\<rparr>\<rparr>\<rparr>"

definition mk_node :: "md_fields option \<Rightarrow> string \<Rightarrow> md_node" where
  "mk_node fs t = \<lparr>node_fields = fs, frontmatter = \<lparr>title = Some t\<rparr>\<rparr>"

definition mk_post :: "md_fields option \<Rightarrow> string \<Rightarrow> edge" where
  "mk_post fs t = \<lparr>node = mk_node fs t\<rparr>"

definition mk_page :: "string option \<Rightarrow> md_node option \<Rightarrow> md_node option \<Rightarrow> page" where
  "mk_page sl prev nxt =
     \<lparr>page_path = sl, page_component = ''/site/src/templates/blog-post.js'',
      page_context = \<lparr>ctx_slug = sl, ctx_previous = prev, ctx_next = nxt\<rparr>\<rparr>"

text \<open>The three posts of the spec's scenario, newest first.\<close>

definition three_posts :: "edge list" where
  "three_posts =
     [mk_post (Some [(''slug'', ''/c/'')]) ''C'',
      mk_post (Some [(''slug'', ''/b/'')]) ''B'',
      mk_post (Some [(''slug'', ''/a/'')]) ''A'']"

definition mk_gatsby_node :: "string \<Rightarrow> string \<Rightarrow> md_fields \<Rightarrow> int \<Rightarrow> gatsby_node" where
  "mk_gatsby_node i kind fs d =
     \<lparr>node_id = i, internal = \<lparr>type = kind\<rparr>, parent = None, gn_fields = fs,
      gn_title = None, gn_date = Some d\<rparr>"





section \<open>The run of the loop\<close>

definition has_fields :: "edge \<Rightarrow> bool" where
  "has_fields e = (node_fields (node e) \<noteq> None)"

text \<open>The pages the loop hands to the registry for a run of edges that all have fields.\<close>

fun pages_from :: "string \<Rightarrow> edge list \<Rightarrow> nat \<Rightarrow> edge list \<Rightarrow> page list" where
  "pages_from blogPost posts i [] = []"
| "pages_from blogPost posts i (e # es) =
     page_args blogPost posts i (the (node_fields (node e))) # pages_from blogPost posts (Suc i) es"

lemma length_pages_from: "length (pages_from bp posts i es) = length es"
  by (induction es arbitrary: i) simp_all

lemma nth_pages_from:
  "k < length es \<Longrightarrow>
   pages_from bp posts i es ! k = page_args bp posts (i + k) (the (node_fields (node (es ! k))))"
proof (induction es arbitrary: i k)
  case Nil
  then show ?case by simp
next
  case (Cons e es)
  show ?case
  proof (cases k)
    case 0
    then show ?thesis by simp
  next
    case (Suc m)
    with Cons.prems have "m < length es" by simp
    from Cons.IH [OF this, of "Suc i"] Suc show ?thesis by simp
  qed
qed

lemma forEach_run:
  "forEach (create_post_page bp cp) es i posts s =
     (if list_all has_fields es then None else Some TypeError,
      fold cp (pages_from bp posts i (takeWhile has_fields es)) s)"
proof (induction es arbitrary: i s)
  case Nil
  show ?case by simp
next
  case (Cons e es)
  show ?case
  proof (cases "node_fields (node e)")
    case None
    then have "create_post_page bp cp e i posts s = Inl TypeError" and "\<not> has_fields e"
      by (simp_all add: create_post_page_def has_fields_def)
    then show ?thesis by simp
  next
    case (Some fs)
    then have "create_post_page bp cp e i posts s = Inr (cp (page_args bp posts i fs) s)"
      and "has_fields e"
      by (simp_all add: create_post_page_def has_fields_def)
    with Some show ?thesis by (simp add: Cons.IH)
  qed
qed

lemma fold_record_page: "fold record_page ps reg = reg @ ps"
  by (induction ps arbitrary: reg) (simp_all add: record_page_def)

lemma createPages_run:
  assumes "graphql blog_posts_query =
             \<lparr>errors = None, data = Some \<lparr>allMarkdownRemark = \<lparr>edges = posts\<rparr>\<rparr>\<rparr>"
  shows "createPages bp graphql cp s =
           (if list_all has_fields posts then Resolved else Rejected TypeError,
            fold cp (pages_from bp posts 0 (takeWhile has_fields posts)) s)"
  by (simp add: createPages_def on_result_def assms forEach_run)

lemma neighbour_node_after:
  "neighbour_node posts (int i + 1) =
     (if i + 1 < length posts then Some (node (posts ! (i + 1))) else None)"
  by (simp add: neighbour_node_def js_index_def nat_add_distrib)

lemma neighbour_node_before:
  "i \<le> length posts \<Longrightarrow>
   neighbour_node posts (int i - 1) = (if 0 < i then Some (node (posts ! (i - 1))) else None)"
  by (auto simp add: neighbour_node_def js_index_def nat_diff_distrib)

lemma neighbour_node_outside:
  "j < 0 \<or> int (length posts) \<le> j \<Longrightarrow> neighbour_node posts j = None"
  by (auto simp add: neighbour_node_def js_index_def)

lemma createPages_log:
  assumes "graphql blog_posts_query =
             \<lparr>errors = None, data = Some \<lparr>allMarkdownRemark = \<lparr>edges = posts\<rparr>\<rparr>\<rparr>"
  shows "createPages bp graphql record_page reg =
           (if list_all has_fields posts then Resolved else Rejected TypeError,
            reg @ pages_from bp posts 0 (takeWhile has_fields posts))"
  using createPages_run [of graphql posts bp record_page reg] assms
  by (simp add: fold_record_page)

lemma all_fields_takeWhile:
  assumes "\<forall>e\<in>set posts. node_fields (node e) \<noteq> None"
  shows "takeWhile has_fields posts = posts" and "list_all has_fields posts"
  using assms by (simp_all add: has_fields_def list_all_iff)

lemma run_entry:
  assumes "i < length (takeWhile has_fields posts)"
  shows "\<exists>fs. node_fields (node (posts ! i)) = Some fs \<and>
           pages_from bp posts 0 (takeWhile has_fields posts) ! i = page_args bp posts i fs"
proof -
  have same: "takeWhile has_fields posts ! i = posts ! i"
    using assms by (rule takeWhile_nth)
  have "takeWhile has_fields posts ! i \<in> set (takeWhile has_fields posts)"
    using assms by (rule nth_mem)
  then have "has_fields (posts ! i)"
    using same by (auto dest: set_takeWhileD)
  then obtain fs where fs: "node_fields (node (posts ! i)) = Some fs"
    by (auto simp add: has_fields_def)
  with assms same show ?thesis
    by (simp add: nth_pages_from)
qed

lemma run_length: "length (takeWhile has_fields posts) \<le> length posts"
  by (rule length_takeWhile_le)

lemma createPages_entries:
  assumes "graphql blog_posts_query =
             \<lparr>errors = None, data = Some \<lparr>allMarkdownRemark = \<lparr>edges = posts\<rparr>\<rparr>\<rparr>"
  shows "\<exists>es. createPages bp graphql record_page reg =
             (if list_all has_fields posts then Resolved else Rejected TypeError, reg @ es) \<and>
           length es = length (takeWhile has_fields posts) \<and>
           (\<forall>i<length es. \<exists>fs. node_fields (node (posts ! i)) = Some fs \<and>
              es ! i = page_args bp posts i fs)"
proof -
  let ?es = "pages_from bp posts 0 (takeWhile has_fields posts)"
  have "createPages bp graphql record_page reg =
       (if list_all has_fields posts then Resolved else Rejected TypeError, reg @ ?es)"
    using assms by (rule createPages_log)
  moreover have "length ?es = length (takeWhile has_fields posts)"
    by (rule length_pages_from)
  moreover have "\<forall>i<length ?es. \<exists>fs. node_fields (node (posts ! i)) = Some fs \<and>
      ?es ! i = page_args bp posts i fs"
    by (simp add: length_pages_from run_entry)
  ultimately show ?thesis by blast
qed

lemma page_args_sel:
  "page_path (page_args bp posts i fs) = map_of fs ''slug''"
  "page_component (page_args bp posts i fs) = bp"
  "ctx_slug (page_context (page_args bp posts i fs)) = map_of fs ''slug''"
  "ctx_previous (page_context (page_args bp posts i fs)) = neighbour_node posts (int i + 1)"
  "ctx_next (page_context (page_args bp posts i fs)) = neighbour_node posts (int i - 1)"
  by (simp_all add: page_args_def)

lemma takeWhile_first_fail:
  assumes "k < length xs" and "\<forall>i<k. P (xs ! i)" and "\<not> P (xs ! k)"
  shows "takeWhile P xs = take k xs"
proof -
  have split: "xs = take k xs @ xs ! k # drop (Suc k) xs"
    using assms(1) by (rule id_take_nth_drop)
  have "P x" if "x \<in> set (take k xs)" for x
  proof -
    from that obtain i where "i < length (take k xs)" "take k xs ! i = x"
      by (auto simp add: in_set_conv_nth)
    with assms(2) show ?thesis by auto
  qed
  then have "takeWhile P (take k xs @ xs ! k # drop (Suc k) xs) =
      take k xs @ takeWhile P (xs ! k # drop (Suc k) xs)"
    by (rule takeWhile_append2)
  with assms(3) have "takeWhile P (take k xs @ xs ! k # drop (Suc k) xs) = take k xs"
    by simp
  with split show ?thesis by simp
qed

lemma on_result_log:
  "on_result bp record_page r reg =
     (fst (on_result bp record_page r []), reg @ snd (on_result bp record_page r []))"
proof (cases "errors r")
  case (Some errs)
  then show ?thesis by (simp add: on_result_def)
next
  case None
  show ?thesis
  proof (cases "data r")
    case no_data: None
    with None show ?thesis by (simp add: on_result_def)
  next
    case (Some d)
    with None show ?thesis
      by (simp add: on_result_def forEach_run fold_record_page Let_def)
  qed
qed

section \<open>Neighbour links\<close>

text \<open>
  C1: the Page Plan Entries are the register-page commands \<open>es\<close> a pass appends to the
  registry. The entry at position \<open>i\<close> has \<open>previous\<close> equal to the node at position
  \<open>i + 1\<close> when that position exists and absent otherwise, and \<open>next\<close> equal to the
  node at position \<open>i - 1\<close> when that position exists and absent otherwise. So the
  entry at position 0 has no next, the one at \<open>n - 1\<close> has no previous and every entry
  between them has both. When every node has its derived-fields mapping there are as many
  entries as nodes. Nothing is asked of the order of the input.
\<close>

theorem createPages_neighbours:
  assumes "graphql blog_posts_query =
             \<lparr>errors = None, data = Some \<lparr>allMarkdownRemark = \<lparr>edges = posts\<rparr>\<rparr>\<rparr>"
  shows "\<exists>es. snd (createPages blogPost graphql record_page reg) = reg @ es \<and>
           length es \<le> length posts \<and>
           ((\<forall>e\<in>set posts. node_fields (node e) \<noteq> None) \<longrightarrow> length es = length posts) \<and>
           (\<forall>i<length es.
              ctx_previous (page_context (es ! i)) =
                (if i + 1 < length posts then Some (node (posts ! (i + 1))) else None) \<and>
              ctx_next (page_context (es ! i)) =
                (if 0 < i then Some (node (posts ! (i - 1))) else None))"
proof -
  from createPages_entries [of graphql posts blogPost reg] assms obtain es where
    run: "createPages blogPost graphql record_page reg =
       (if list_all has_fields posts then Resolved else Rejected TypeError, reg @ es)"
    and len: "length es = length (takeWhile has_fields posts)"
    and ent: "\<forall>i<length es.
           \<exists>fs. node_fields (node (posts ! i)) = Some fs \<and> es ! i = page_args blogPost posts i fs"
    by blast
  have le: "length es \<le> length posts"
    by (simp add: len run_length)
  have full: "length es = length posts" if "\<forall>e\<in>set posts. node_fields (node e) \<noteq> None"
    using that by (simp add: len all_fields_takeWhile)
  have nb: "ctx_previous (page_context (es ! i)) =
                (if i + 1 < length posts then Some (node (posts ! (i + 1))) else None) \<and>
              ctx_next (page_context (es ! i)) =
                (if 0 < i then Some (node (posts ! (i - 1))) else None)"
    if "i < length es" for i
  proof -
    from ent that obtain fs where e: "es ! i = page_args blogPost posts i fs"
      by blast
    from that le have "i \<le> length posts" by simp
    then show ?thesis
      by (simp add: e page_args_sel neighbour_node_after neighbour_node_before)
  qed
  from run le full nb show ?thesis by auto
qed

theorem createPages_neighbours_witness:
  "\<exists>es. snd (createPages ''/site/src/templates/blog-post.js'' (fixed_source three_posts)
            record_page []) = es \<and>
     length es = 3 \<and>
     ctx_previous (page_context (es ! 0)) = Some (mk_node (Some [(''slug'', ''/b/'')]) ''B'') \<and>
     ctx_next (page_context (es ! 0)) = None \<and>
     ctx_previous (page_context (es ! 1)) = Some (mk_node (Some [(''slug'', ''/a/'')]) ''A'') \<and>
     ctx_next (page_context (es ! 1)) = Some (mk_node (Some [(''slug'', ''/c/'')]) ''C'') \<and>
     ctx_previous (page_context (es ! 2)) = None \<and>
     ctx_next (page_context (es ! 2)) = Some (mk_node (Some [(''slug'', ''/b/'')]) ''B'')"
proof -
  have q: "fixed_source three_posts blog_posts_query =
      \<lparr>errors = None, data = Some \<lparr>allMarkdownRemark = \<lparr>edges = three_posts\<rparr>\<rparr>\<rparr>"
    by (simp add: fixed_source_def)
  have a: "\<forall>e\<in>set three_posts. node_fields (node e) \<noteq> None"
    by (simp add: three_posts_def mk_post_def mk_node_def)
  have n: "length three_posts = 3"
    by (simp add: three_posts_def)
  from createPages_neighbours
    [of "fixed_source three_posts" three_posts "''/site/src/templates/blog-post.js''" "[]"] q
  obtain es where
    r: "snd (createPages ''/site/src/templates/blog-post.js'' (fixed_source three_posts)
            record_page []) = [] @ es"
    and l: "(\<forall>e\<in>set three_posts. node_fields (node e) \<noteq> None) \<longrightarrow>
            length es = length three_posts"
    and e: "\<forall>i<length es.
              ctx_previous (page_context (es ! i)) =
                (if i + 1 < length three_posts then Some (node (three_posts ! (i + 1))) else None) \<and>
              ctx_next (page_context (es ! i)) =
                (if 0 < i then Some (node (three_posts ! (i - 1))) else None)"
    by blast
  from l a n have len: "length es = 3" by simp
  from e [rule_format, of 0] e [rule_format, of 1] e [rule_format, of 2] len
  have "ctx_previous (page_context (es ! 0)) = Some (mk_node (Some [(''slug'', ''/b/'')]) ''B'')"
    and "ctx_next (page_context (es ! 0)) = None"
    and "ctx_previous (page_context (es ! 1)) = Some (mk_node (Some [(''slug'', ''/a/'')]) ''A'')"
    and "ctx_next (page_context (es ! 1)) = Some (mk_node (Some [(''slug'', ''/c/'')]) ''C'')"
    and "ctx_previous (page_context (es ! 2)) = None"
    and "ctx_next (page_context (es ! 2)) = Some (mk_node (Some [(''slug'', ''/b/'')]) ''B'')"
    by (simp_all add: three_posts_def mk_post_def)
  with r len show ?thesis
    by simp
qed

section \<open>A node without a slug\<close>

text \<open>
  Against C2 as it is stated: the build script has no check for a missing slug. With a
  first node that has a slug and a second one whose derived-fields mapping is empty, the
  pass resolves and registers both pages, the second with no path.
\<close>

theorem createPages_missing_slug_counterexample:
  "createPages ''/site/src/templates/blog-post.js''
     (fixed_source [mk_post (Some [(''slug'', ''/a/'')]) ''A'', mk_post (Some []) ''B''])
     record_page []
   = (Resolved,
      [mk_page (Some ''/a/'') (Some (mk_node (Some []) ''B'')) None,
       mk_page None None (Some (mk_node (Some [(''slug'', ''/a/'')]) ''A''))])"
  by (simp add: createPages_def on_result_def fixed_source_def mk_post_def mk_node_def
      mk_page_def create_post_page_def page_args_def neighbour_node_def js_index_def
      record_page_def)

text \<open>
  C2, as the code has it: when every node has a derived-fields mapping, the pass raises
  no error even where a mapping lacks the slug; it registers one page per node, in order,
  and the path and context slug of an entry are whatever the mapping answers for
  \<^verbatim>\<open>slug\<close>, absent when the key is missing. When the mapping of the node at position
  \<open>k\<close> is itself absent and those before it are present, the pass is rejected with a
  \<^verbatim>\<open>TypeError\<close> after the \<open>k\<close> pages of the nodes before it were registered.
\<close>

theorem createPages_missing_slug:
  assumes "graphql blog_posts_query =
             \<lparr>errors = None, data = Some \<lparr>allMarkdownRemark = \<lparr>edges = posts\<rparr>\<rparr>\<rparr>"
  shows "((\<forall>e\<in>set posts. node_fields (node e) \<noteq> None) \<longrightarrow>
            (\<exists>es. createPages blogPost graphql record_page reg = (Resolved, reg @ es) \<and>
               length es = length posts \<and>
               (\<forall>i<length posts. \<forall>fs. node_fields (node (posts ! i)) = Some fs \<longrightarrow>
                  page_path (es ! i) = map_of fs ''slug'' \<and>
                  ctx_slug (page_context (es ! i)) = map_of fs ''slug''))) \<and>
         (\<forall>k<length posts.
            (\<forall>i<k. node_fields (node (posts ! i)) \<noteq> None) \<and>
            node_fields (node (posts ! k)) = None \<longrightarrow>
            (\<exists>es. createPages blogPost graphql record_page reg = (Rejected TypeError, reg @ es) \<and>
               length es = k))"
proof -
  from createPages_entries [of graphql posts blogPost reg] assms obtain es where
    run: "createPages blogPost graphql record_page reg =
       (if list_all has_fields posts then Resolved else Rejected TypeError, reg @ es)"
    and len: "length es = length (takeWhile has_fields posts)"
    and ent: "\<forall>i<length es.
           \<exists>fs. node_fields (node (posts ! i)) = Some fs \<and> es ! i = page_args blogPost posts i fs"
    by blast
  have present: "\<exists>es. createPages blogPost graphql record_page reg = (Resolved, reg @ es) \<and>
               length es = length posts \<and>
               (\<forall>i<length posts. \<forall>fs. node_fields (node (posts ! i)) = Some fs \<longrightarrow>
                  page_path (es ! i) = map_of fs ''slug'' \<and>
                  ctx_slug (page_context (es ! i)) = map_of fs ''slug'')"
    if all: "\<forall>e\<in>set posts. node_fields (node e) \<noteq> None"
  proof -
    have ok: "createPages blogPost graphql record_page reg = (Resolved, reg @ es)"
      using run all by (simp add: all_fields_takeWhile)
    have full: "length es = length posts"
      using len all by (simp add: all_fields_takeWhile)
    have "page_path (es ! i) = map_of fs ''slug'' \<and>
        ctx_slug (page_context (es ! i)) = map_of fs ''slug''"
      if "i < length posts" and "node_fields (node (posts ! i)) = Some fs" for i fs
    proof -
      from ent full that have "es ! i = page_args blogPost posts i fs"
        by auto
      then show ?thesis by (simp add: page_args_sel)
    qed
    with ok full show ?thesis by blast
  qed
  have absent: "\<exists>es. createPages blogPost graphql record_page reg =
        (Rejected TypeError, reg @ es) \<and> length es = k"
    if k: "k < length posts"
      and before: "\<forall>i<k. node_fields (node (posts ! i)) \<noteq> None"
      and here: "node_fields (node (posts ! k)) = None"
    for k
  proof -
    from here have bad: "\<not> has_fields (posts ! k)"
      by (simp add: has_fields_def)
    from before have good: "\<forall>i<k. has_fields (posts ! i)"
      by (simp add: has_fields_def)
    from k good bad have "takeWhile has_fields posts = take k posts"
      by (rule takeWhile_first_fail)
    with len k have "length es = k" by simp
    moreover from k bad have "\<not> list_all has_fields posts"
      by (auto simp add: list_all_iff)
    with run have "createPages blogPost graphql record_page reg = (Rejected TypeError, reg @ es)"
      by simp
    ultimately show ?thesis by blast
  qed
  from present absent show ?thesis by blast
qed

theorem createPages_missing_slug_witness:
  "(\<exists>es. createPages ''/site/src/templates/blog-post.js''
       (fixed_source [mk_post (Some [(''slug'', ''/a/'')]) ''A'', mk_post (Some []) ''B''])
       record_page [] = (Resolved, es) \<and>
     length es = 2 \<and> page_path (es ! 1) = None \<and> ctx_slug (page_context (es ! 1)) = None) \<and>
   (\<exists>es. createPages ''/site/src/templates/blog-post.js''
       (fixed_source [mk_post (Some [(''slug'', ''/a/'')]) ''A'', mk_post None ''B'',
                      mk_post (Some [(''slug'', ''/c/'')]) ''C''])
       record_page [] = (Rejected TypeError, es) \<and>
     length es = 1)"
proof -
  let ?bp = "''/site/src/templates/blog-post.js''"
  let ?ps = "[mk_post (Some [(''slug'', ''/a/'')]) ''A'', mk_post (Some []) ''B'']"
  let ?qs = "[mk_post (Some [(''slug'', ''/a/'')]) ''A'', mk_post None ''B'',
              mk_post (Some [(''slug'', ''/c/'')]) ''C'']"
  have q: "fixed_source ps blog_posts_query =
      \<lparr>errors = None, data = Some \<lparr>allMarkdownRemark = \<lparr>edges = ps\<rparr>\<rparr>\<rparr>" for ps
    by (simp add: fixed_source_def)
  have a: "\<forall>e\<in>set ?ps. node_fields (node e) \<noteq> None"
    by (simp add: mk_post_def mk_node_def)
  from createPages_missing_slug [of "fixed_source ?ps" ?ps ?bp "[]", OF q] a
  obtain es where
    r: "createPages ?bp (fixed_source ?ps) record_page [] = (Resolved, [] @ es)"
    and l: "length es = length ?ps"
    and e: "\<forall>i<length ?ps. \<forall>fs. node_fields (node (?ps ! i)) = Some fs \<longrightarrow>
                  page_path (es ! i) = map_of fs ''slug'' \<and>
                  ctx_slug (page_context (es ! i)) = map_of fs ''slug''"
    by blast
  from e [rule_format, of 1 "[]"]
  have "page_path (es ! 1) = None \<and> ctx_slug (page_context (es ! 1)) = None"
    by (simp add: mk_post_def mk_node_def)
  with r l have first: "\<exists>es. createPages ?bp (fixed_source ?ps) record_page [] = (Resolved, es) \<and>
     length es = 2 \<and> page_path (es ! 1) = None \<and> ctx_slug (page_context (es ! 1)) = None"
    by simp
  have b: "(1::nat) < length ?qs \<and> (\<forall>i<1. node_fields (node (?qs ! i)) \<noteq> None) \<and>
      node_fields (node (?qs ! 1)) = None"
    by (simp add: mk_post_def mk_node_def)
  from createPages_missing_slug [of "fixed_source ?qs" ?qs ?bp "[]", OF q] b
  have "\<exists>es. createPages ?bp (fixed_source ?qs) record_page [] = (Rejected TypeError, [] @ es) \<and>
      length es = 1"
    by blast
  with first show ?thesis by simp
qed

section \<open>One entry per node\<close>

text \<open>
  C3: when every node of an input of length \<open>n\<close> carries a slug, the pass resolves and
  registers exactly \<open>n\<close> pages, the \<open>i\<close>-th one built from the \<open>i\<close>-th node, with that
  node's slug as its path. For the empty input nothing is registered and the pass
  resolves, whatever the registry's action is.
\<close>

theorem createPages_one_entry_per_node:
  assumes "graphql blog_posts_query =
             \<lparr>errors = None, data = Some \<lparr>allMarkdownRemark = \<lparr>edges = posts\<rparr>\<rparr>\<rparr>"
    and "\<forall>e\<in>set posts. \<exists>fs sl. node_fields (node e) = Some fs \<and> map_of fs ''slug'' = Some sl"
  shows "\<exists>es. createPages blogPost graphql record_page reg = (Resolved, reg @ es) \<and>
           length es = length posts \<and>
           (\<forall>i<length posts. \<exists>fs sl.
              node_fields (node (posts ! i)) = Some fs \<and> map_of fs ''slug'' = Some sl \<and>
              es ! i = page_args blogPost posts i fs \<and> page_path (es ! i) = Some sl) \<and>
           (posts = [] \<longrightarrow>
              es = [] \<and> createPages blogPost graphql createPage s = (Resolved, s))"
proof -
  from assms(2) have all: "\<forall>e\<in>set posts. node_fields (node e) \<noteq> None"
    by auto
  from createPages_entries [of graphql posts blogPost reg] assms(1) obtain es where
    run: "createPages blogPost graphql record_page reg =
       (if list_all has_fields posts then Resolved else Rejected TypeError, reg @ es)"
    and len: "length es = length (takeWhile has_fields posts)"
    and ent: "\<forall>i<length es.
           \<exists>fs. node_fields (node (posts ! i)) = Some fs \<and> es ! i = page_args blogPost posts i fs"
    by blast
  have run': "createPages blogPost graphql record_page reg = (Resolved, reg @ es)"
    using run all by (simp add: all_fields_takeWhile)
  have len': "length es = length posts"
    using len all by (simp add: all_fields_takeWhile)
  have each: "\<exists>fs sl.
              node_fields (node (posts ! i)) = Some fs \<and> map_of fs ''slug'' = Some sl \<and>
              es ! i = page_args blogPost posts i fs \<and> page_path (es ! i) = Some sl"
    if "i < length posts" for i
  proof -
    from that ent len' obtain fs where
      fs: "node_fields (node (posts ! i)) = Some fs" "es ! i = page_args blogPost posts i fs"
      by auto
    from that have "posts ! i \<in> set posts" by simp
    with assms(2) fs obtain sl where "map_of fs ''slug'' = Some sl"
      by fastforce
    with fs show ?thesis by (simp add: page_args_sel)
  qed
  have empty: "createPages blogPost graphql createPage s = (Resolved, s)" if "posts = []"
    using createPages_run [of graphql posts blogPost createPage s] assms(1) that by simp
  from run' len' each empty show ?thesis by auto
qed

theorem createPages_one_entry_per_node_witness:
  "\<exists>es. createPages ''/site/src/templates/blog-post.js'' (fixed_source three_posts)
           record_page [] = (Resolved, es) \<and>
     length es = 3 \<and>
     page_path (es ! 0) = Some ''/c/'' \<and>
     page_path (es ! 1) = Some ''/b/'' \<and>
     page_path (es ! 2) = Some ''/a/'' \<and>
     createPages ''/site/src/templates/blog-post.js'' (fixed_source []) record_page [] =
       (Resolved, [])"
proof -
  let ?bp = "''/site/src/templates/blog-post.js''"
  have q: "fixed_source ps blog_posts_query =
      \<lparr>errors = None, data = Some \<lparr>allMarkdownRemark = \<lparr>edges = ps\<rparr>\<rparr>\<rparr>" for ps
    by (simp add: fixed_source_def)
  have a: "\<forall>e\<in>set three_posts.
      \<exists>fs sl. node_fields (node e) = Some fs \<and> map_of fs ''slug'' = Some sl"
    by (simp add: three_posts_def mk_post_def mk_node_def)
  have n: "length three_posts = 3"
    by (simp add: three_posts_def)
  from createPages_one_entry_per_node
    [of "fixed_source three_posts" three_posts ?bp "[]" record_page "[]", OF q a]
  obtain es where
    r: "createPages ?bp (fixed_source three_posts) record_page [] = (Resolved, [] @ es)"
    and l: "length es = length three_posts"
    and e: "\<forall>i<length three_posts. \<exists>fs sl.
              node_fields (node (three_posts ! i)) = Some fs \<and> map_of fs ''slug'' = Some sl \<and>
              es ! i = page_args ?bp three_posts i fs \<and> page_path (es ! i) = Some sl"
    by blast
  from e [rule_format, of 0] n have p0: "page_path (es ! 0) = Some ''/c/''"
    by (auto simp add: three_posts_def mk_post_def mk_node_def)
  from e [rule_format, of 1] n have p1: "page_path (es ! 1) = Some ''/b/''"
    by (auto simp add: three_posts_def mk_post_def mk_node_def)
  from e [rule_format, of 2] n have p2: "page_path (es ! 2) = Some ''/a/''"
    by (auto simp add: three_posts_def mk_post_def mk_node_def)
  have "\<forall>e\<in>set ([] :: edge list).
      \<exists>fs sl. node_fields (node e) = Some fs \<and> map_of fs ''slug'' = Some sl"
    by simp
  from createPages_one_entry_per_node
    [of "fixed_source []" "[]" ?bp "[]" record_page "[]", OF q this]
  have "createPages ?bp (fixed_source []) record_page [] = (Resolved, [])"
    by simp
  with r l n p0 p1 p2 show ?thesis
    by simp
qed

section \<open>Failure of the query\<close>

text \<open>
  C4: when the content-source query reports errors, the pass is rejected with exactly
  those errors and the page registry is left as it was: no register-page command is
  issued, whatever the registry's action does and whatever the result's data is.
\<close>

theorem createPages_query_errors:
  "errors (graphql blog_posts_query) = Some errs \<Longrightarrow>
   createPages blogPost graphql createPage s = (Rejected (QueryErrors errs), s)"
  by (simp add: createPages_def on_result_def)

theorem createPages_query_errors_witness:
  "createPages ''/site/src/templates/blog-post.js''
     (\<lambda>q. \<lparr>errors = Some [''Unknown field''], data = None\<rparr>) record_page []
   = (Rejected (QueryErrors [''Unknown field'']), [])"
  using createPages_query_errors
    [of "\<lambda>q. \<lparr>errors = Some [''Unknown field''], data = None\<rparr>" "[''Unknown field'']"
        "''/site/src/templates/blog-post.js''" record_page "[]"]
  by simp

section \<open>The bound on the number of nodes\<close>




section \<open>Nodes of another kind\<close>

text \<open>
  C6: for a node whose kind is not \<^verbatim>\<open>MarkdownRemark\<close>, \<^verbatim>\<open>onCreateNode\<close> returns
  at once: the state of the node field store is the one it started from, whatever
  \<open>createNodeField\<close> and \<open>createFilePath\<close> do, and no error is raised.
\<close>

theorem onCreateNode_other_kind:
  "type (internal n) \<noteq> ''MarkdownRemark'' \<Longrightarrow>
   onCreateNode createFilePath createNodeField getNode n s = s"
  by (simp add: onCreateNode_def)

theorem onCreateNode_other_kind_witness:
  "onCreateNode (\<lambda>n g. ''/blog/my-post/'') (\<lambda>c log. log @ [c]) (\<lambda>i. None)
     (mk_gatsby_node ''file-1'' ''File'' [] 0) [] = [] \<and>
   onCreateNode (\<lambda>n g. ''/blog/my-post/'') (\<lambda>c log. log @ [c]) (\<lambda>i. None)
     (mk_gatsby_node ''md-1'' ''MarkdownRemark'' [] 0) [] =
     [\<lparr>field_name = ''slug'', field_node = mk_gatsby_node ''md-1'' ''MarkdownRemark'' [] 0,
       field_value = ''/blog/my-post/''\<rparr>]"
proof -
  have "type (internal (mk_gatsby_node ''file-1'' ''File'' [] 0)) \<noteq> ''MarkdownRemark''"
    by (simp add: mk_gatsby_node_def)
  from onCreateNode_other_kind [OF this]
  have "onCreateNode (\<lambda>n g. ''/blog/my-post/'') (\<lambda>c log. log @ [c]) (\<lambda>i. None)
     (mk_gatsby_node ''file-1'' ''File'' [] 0) ([] :: node_field list) = []" .
  moreover have "onCreateNode (\<lambda>n g. ''/blog/my-post/'') (\<lambda>c log. log @ [c]) (\<lambda>i. None)
     (mk_gatsby_node ''md-1'' ''MarkdownRemark'' [] 0) [] =
     [\<lparr>field_name = ''slug'', field_node = mk_gatsby_node ''md-1'' ''MarkdownRemark'' [] 0,
       field_value = ''/blog/my-post/''\<rparr>]"
    by (simp add: onCreateNode_def mk_gatsby_node_def)
  ultimately show ?thesis by simp
qed

section \<open>Route path and context\<close>

text \<open>
  C7: every entry a pass registers has the slug of its node as route path, exactly as the
  derived-fields mapping holds it, and its context carries the same slug with the
  previous and next node references, each present or absent.
\<close>

theorem createPages_path_is_slug:
  assumes "graphql blog_posts_query =
             \<lparr>errors = None, data = Some \<lparr>allMarkdownRemark = \<lparr>edges = posts\<rparr>\<rparr>\<rparr>"
  shows "\<exists>es. snd (createPages blogPost graphql record_page reg) = reg @ es \<and>
           ((\<forall>e\<in>set posts. node_fields (node e) \<noteq> None) \<longrightarrow> length es = length posts) \<and>
           (\<forall>i<length es. \<exists>fs.
              node_fields (node (posts ! i)) = Some fs \<and>
              page_path (es ! i) = map_of fs ''slug'' \<and>
              ctx_slug (page_context (es ! i)) = map_of fs ''slug'' \<and>
              ctx_previous (page_context (es ! i)) = neighbour_node posts (int i + 1) \<and>
              ctx_next (page_context (es ! i)) = neighbour_node posts (int i - 1))"
proof -
  from createPages_entries [of graphql posts blogPost reg] assms obtain es where
    run: "createPages blogPost graphql record_page reg =
       (if list_all has_fields posts then Resolved else Rejected TypeError, reg @ es)"
    and len: "length es = length (takeWhile has_fields posts)"
    and ent: "\<forall>i<length es.
           \<exists>fs. node_fields (node (posts ! i)) = Some fs \<and> es ! i = page_args blogPost posts i fs"
    by blast
  have full: "length es = length posts" if "\<forall>e\<in>set posts. node_fields (node e) \<noteq> None"
    using that by (simp add: len all_fields_takeWhile)
  have each: "\<exists>fs.
              node_fields (node (posts ! i)) = Some fs \<and>
              page_path (es ! i) = map_of fs ''slug'' \<and>
              ctx_slug (page_context (es ! i)) = map_of fs ''slug'' \<and>
              ctx_previous (page_context (es ! i)) = neighbour_node posts (int i + 1) \<and>
              ctx_next (page_context (es ! i)) = neighbour_node posts (int i - 1)"
    if "i < length es" for i
  proof -
    from ent that obtain fs where
      "node_fields (node (posts ! i)) = Some fs" "es ! i = page_args blogPost posts i fs"
      by blast
    then show ?thesis by (simp add: page_args_sel)
  qed
  have "snd (createPages blogPost graphql record_page reg) = reg @ es"
    by (simp add: run)
  with full each show ?thesis by blast
qed

theorem createPages_path_is_slug_witness:
  "\<exists>es. snd (createPages ''/site/src/templates/blog-post.js'' (fixed_source three_posts)
            record_page []) = es \<and>
     length es = 3 \<and>
     page_path (es ! 1) = Some ''/b/'' \<and>
     ctx_slug (page_context (es ! 1)) = Some ''/b/'' \<and>
     ctx_previous (page_context (es ! 1)) = Some (mk_node (Some [(''slug'', ''/a/'')]) ''A'') \<and>
     ctx_next (page_context (es ! 1)) = Some (mk_node (Some [(''slug'', ''/c/'')]) ''C'')"
proof -
  let ?bp = "''/site/src/templates/blog-post.js''"
  have q: "fixed_source three_posts blog_posts_query =
      \<lparr>errors = None, data = Some \<lparr>allMarkdownRemark = \<lparr>edges = three_posts\<rparr>\<rparr>\<rparr>"
    by (simp add: fixed_source_def)
  have a: "\<forall>e\<in>set three_posts. node_fields (node e) \<noteq> None"
    by (simp add: three_posts_def mk_post_def mk_node_def)
  have n: "length three_posts = 3"
    by (simp add: three_posts_def)
  from createPages_path_is_slug [of "fixed_source three_posts" three_posts ?bp "[]"] q
  obtain es where
    r: "snd (createPages ?bp (fixed_source three_posts) record_page []) = [] @ es"
    and l: "(\<forall>e\<in>set three_posts. node_fields (node e) \<noteq> None) \<longrightarrow>
            length es = length three_posts"
    and e: "\<forall>i<length es. \<exists>fs.
              node_fields (node (three_posts ! i)) = Some fs \<and>
              page_path (es ! i) = map_of fs ''slug'' \<and>
              ctx_slug (page_context (es ! i)) = map_of fs ''slug'' \<and>
              ctx_previous (page_context (es ! i)) = neighbour_node three_posts (int i + 1) \<and>
              ctx_next (page_context (es ! i)) = neighbour_node three_posts (int i - 1)"
    by blast
  from l a n have len: "length es = 3" by simp
  from e [rule_format, of 1] len
  have "page_path (es ! 1) = Some ''/b/''"
    and "ctx_slug (page_context (es ! 1)) = Some ''/b/''"
    and "ctx_previous (page_context (es ! 1)) = Some (mk_node (Some [(''slug'', ''/a/'')]) ''A'')"
    and "ctx_next (page_context (es ! 1)) = Some (mk_node (Some [(''slug'', ''/c/'')]) ''C'')"
    by (auto simp add: three_posts_def mk_post_def mk_node_def neighbour_node_def js_index_def)
  with r len show ?thesis
    by simp
qed

section \<open>Running the pass twice\<close>

text \<open>
  C8: a second pass over the same query answer, started from the registry the first pass
  left, settles the same way and registers the same entries again, in the same order: the
  entries depend on the input only, not on the registry.
\<close>

theorem createPages_twice:
  "createPages blogPost graphql record_page reg = (out, reg') \<Longrightarrow>
   \<exists>es. reg' = reg @ es \<and>
     createPages blogPost graphql record_page reg' = (out, reg' @ es)"
proof -
  assume first: "createPages blogPost graphql record_page reg = (out, reg')"
  let ?r = "graphql blog_posts_query"
  let ?es = "snd (on_result blogPost record_page ?r [])"
  from first have "on_result blogPost record_page ?r reg = (out, reg')"
    by (simp add: createPages_def)
  with on_result_log [of blogPost ?r reg]
  have out: "out = fst (on_result blogPost record_page ?r [])" and reg': "reg' = reg @ ?es"
    by simp_all
  have "createPages blogPost graphql record_page reg' = (out, reg' @ ?es)"
    using on_result_log [of blogPost ?r reg'] by (simp add: createPages_def out)
  with reg' show ?thesis by blast
qed

theorem createPages_twice_witness:
  "createPages ''/site/src/templates/blog-post.js''
     (fixed_source [mk_post (Some [(''slug'', ''/a/'')]) ''A'']) record_page []
     = (Resolved, [mk_page (Some ''/a/'') None None]) \<and>
   createPages ''/site/src/templates/blog-post.js''
     (fixed_source [mk_post (Some [(''slug'', ''/a/'')]) ''A'']) record_page
     [mk_page (Some ''/a/'') None None]
     = (Resolved, [mk_page (Some ''/a/'') None None, mk_page (Some ''/a/'') None None])"
proof -
  let ?bp = "''/site/src/templates/blog-post.js''"
  let ?src = "fixed_source [mk_post (Some [(''slug'', ''/a/'')]) ''A'']"
  have first: "createPages ?bp ?src record_page [] = (Resolved, [mk_page (Some ''/a/'') None None])"
    by (simp add: createPages_def on_result_def fixed_source_def mk_post_def mk_node_def
        mk_page_def create_post_page_def page_args_def neighbour_node_def js_index_def
        record_page_def)
  from createPages_twice [OF first] first show ?thesis
    by simp
qed

section \<open>Consistency of the links\<close>

text \<open>
  C9: for every two consecutive entries \<open>i\<close> and \<open>i + 1\<close> of a pass, the previous of
  entry \<open>i\<close> is the node of position \<open>i + 1\<close>, and the next of entry \<open>i + 1\<close> is the
  node of position \<open>i\<close>: previous and then next leads back to the node one started from.
\<close>

theorem createPages_links_consistent:
  assumes "graphql blog_posts_query =
             \<lparr>errors = None, data = Some \<lparr>allMarkdownRemark = \<lparr>edges = posts\<rparr>\<rparr>\<rparr>"
  shows "\<exists>es. snd (createPages blogPost graphql record_page reg) = reg @ es \<and>
           ((\<forall>e\<in>set posts. node_fields (node e) \<noteq> None) \<longrightarrow> length es = length posts) \<and>
           (\<forall>i. i + 1 < length es \<longrightarrow>
              ctx_previous (page_context (es ! i)) = Some (node (posts ! (i + 1))) \<and>
              ctx_next (page_context (es ! (i + 1))) = Some (node (posts ! i)))"
proof -
  from createPages_entries [of graphql posts blogPost reg] assms obtain es where
    run: "createPages blogPost graphql record_page reg =
       (if list_all has_fields posts then Resolved else Rejected TypeError, reg @ es)"
    and len: "length es = length (takeWhile has_fields posts)"
    and ent: "\<forall>i<length es.
           \<exists>fs. node_fields (node (posts ! i)) = Some fs \<and> es ! i = page_args blogPost posts i fs"
    by blast
  have le: "length es \<le> length posts"
    by (simp add: len run_length)
  have full: "length es = length posts" if "\<forall>e\<in>set posts. node_fields (node e) \<noteq> None"
    using that by (simp add: len all_fields_takeWhile)
  have link: "ctx_previous (page_context (es ! i)) = Some (node (posts ! (i + 1))) \<and>
              ctx_next (page_context (es ! (i + 1))) = Some (node (posts ! i))"
    if "i + 1 < length es" for i
  proof -
    from that have "i < length es" by simp
    with ent obtain fs where here: "es ! i = page_args blogPost posts i fs"
      by blast
    from ent that obtain gs where there: "es ! (i + 1) = page_args blogPost posts (i + 1) gs"
      by blast
    from that le have in_range: "i + 1 < length posts" by simp
    have "ctx_previous (page_context (es ! i)) = Some (node (posts ! (i + 1)))"
      using in_range by (simp add: here page_args_sel neighbour_node_after)
    moreover have "ctx_next (page_context (page_args blogPost posts (i + 1) gs)) =
        neighbour_node posts (int (i + 1) - 1)"
      by (rule page_args_sel)
    moreover have "neighbour_node posts (int (i + 1) - 1) = Some (node (posts ! i))"
      using in_range neighbour_node_before [of "i + 1" posts] by simp
    moreover note there
    ultimately show ?thesis by simp
  qed
  have "snd (createPages blogPost graphql record_page reg) = reg @ es"
    by (simp add: run)
  with full link show ?thesis by blast
qed

theorem createPages_links_consistent_witness:
  "\<exists>es. snd (createPages ''/site/src/templates/blog-post.js'' (fixed_source three_posts)
            record_page []) = es \<and>
     length es = 3 \<and>
     ctx_previous (page_context (es ! 0)) = Some (node (three_posts ! 1)) \<and>
     ctx_next (page_context (es ! 1)) = Some (node (three_posts ! 0)) \<and>
     ctx_previous (page_context (es ! 1)) = Some (node (three_posts ! 2)) \<and>
     ctx_next (page_context (es ! 2)) = Some (node (three_posts ! 1))"
proof -
  let ?bp = "''/site/src/templates/blog-post.js''"
  have q: "fixed_source three_posts blog_posts_query =
      \<lparr>errors = None, data = Some \<lparr>allMarkdownRemark = \<lparr>edges = three_posts\<rparr>\<rparr>\<rparr>"
    by (simp add: fixed_source_def)
  have a: "\<forall>e\<in>set three_posts. node_fields (node e) \<noteq> None"
    by (simp add: three_posts_def mk_post_def mk_node_def)
  have n: "length three_posts = 3"
    by (simp add: three_posts_def)
  from createPages_links_consistent [of "fixed_source three_posts" three_posts ?bp "[]"] q
  obtain es where
    r: "snd (createPages ?bp (fixed_source three_posts) record_page []) = [] @ es"
    and l: "(\<forall>e\<in>set three_posts. node_fields (node e) \<noteq> None) \<longrightarrow>
            length es = length three_posts"
    and e: "\<forall>i. i + 1 < length es \<longrightarrow>
              ctx_previous (page_context (es ! i)) = Some (node (three_posts ! (i + 1))) \<and>
              ctx_next (page_context (es ! (i + 1))) = Some (node (three_posts ! i))"
    by blast
  from l a n have len: "length es = 3" by simp
  from e [rule_format, of 0] len
  have e0: "ctx_previous (page_context (es ! 0)) = Some (node (three_posts ! (0 + 1))) \<and>
      ctx_next (page_context (es ! (0 + 1))) = Some (node (three_posts ! 0))"
    by linarith
  from e [rule_format, of 1] len
  have e1: "ctx_previous (page_context (es ! 1)) = Some (node (three_posts ! (1 + 1))) \<and>
      ctx_next (page_context (es ! (1 + 1))) = Some (node (three_posts ! 1))"
    by linarith
  have "(0::nat) + 1 = 1" and "(1::nat) + 1 = 2" by simp_all
  with e0 e1 r len show ?thesis
    by (simp only: append_Nil) blast
qed

section \<open>Lookups at the boundaries\<close>

text \<open>
  C10: the neighbour lookup is total. At every index outside the sequence, \<open>-1\<close> and
  \<open>n\<close> among them, it answers an absent neighbour, and inside it answers the node at
  that index. A pass over a single node with its derived-fields mapping resolves and
  registers the one entry, with previous and next both absent.
\<close>

theorem neighbour_lookup_total:
  "(\<forall>j. j < 0 \<or> int (length posts) \<le> j \<longrightarrow> neighbour_node posts j = None) \<and>
   (\<forall>j. 0 \<le> j \<and> j < int (length posts) \<longrightarrow>
      neighbour_node posts j = Some (node (posts ! nat j))) \<and>
   neighbour_node posts (- 1) = None \<and>
   neighbour_node posts (int (length posts)) = None \<and>
   (graphql blog_posts_query =
      \<lparr>errors = None, data = Some \<lparr>allMarkdownRemark = \<lparr>edges = [post]\<rparr>\<rparr>\<rparr> \<and>
    node_fields (node post) = Some fs \<longrightarrow>
    createPages blogPost graphql record_page reg =
      (Resolved,
       reg @ [\<lparr>page_path = map_of fs ''slug'', page_component = blogPost,
               page_context = \<lparr>ctx_slug = map_of fs ''slug'', ctx_previous = None,
                                ctx_next = None\<rparr>\<rparr>]))"
proof -
  have outside: "neighbour_node posts j = None" if "j < 0 \<or> int (length posts) \<le> j" for j
    using that by (rule neighbour_node_outside)
  have inside: "neighbour_node posts j = Some (node (posts ! nat j))"
    if "0 \<le> j \<and> j < int (length posts)" for j
    using that by (simp add: neighbour_node_def js_index_def)
  have single: "createPages blogPost graphql record_page reg =
      (Resolved,
       reg @ [\<lparr>page_path = map_of fs ''slug'', page_component = blogPost,
               page_context = \<lparr>ctx_slug = map_of fs ''slug'', ctx_previous = None,
                                ctx_next = None\<rparr>\<rparr>])"
    if q: "graphql blog_posts_query =
      \<lparr>errors = None, data = Some \<lparr>allMarkdownRemark = \<lparr>edges = [post]\<rparr>\<rparr>\<rparr>"
      and f: "node_fields (node post) = Some fs"
  proof -
    from f have "has_fields post" by (simp add: has_fields_def)
    with createPages_log [of graphql "[post]" blogPost reg] q f show ?thesis
      by (simp add: page_args_def neighbour_node_def js_index_def)
  qed
  from outside inside single show ?thesis by simp
qed

theorem neighbour_lookup_total_witness:
  "neighbour_node three_posts (- 1) = None \<and>
   neighbour_node three_posts 3 = None \<and>
   neighbour_node three_posts 1 = Some (mk_node (Some [(''slug'', ''/b/'')]) ''B'') \<and>
   createPages ''/site/src/templates/blog-post.js''
     (fixed_source [mk_post (Some [(''slug'', ''/a/'')]) ''A'']) record_page []
   = (Resolved, [mk_page (Some ''/a/'') None None])"
proof -
  let ?bp = "''/site/src/templates/blog-post.js''"
  let ?post = "mk_post (Some [(''slug'', ''/a/'')]) ''A''"
  note t = neighbour_lookup_total
    [of three_posts "fixed_source [?post]" ?post "[(''slug'', ''/a/'')]" ?bp "[]"]
  have n: "length three_posts = 3"
    by (simp add: three_posts_def)
  from t n have "neighbour_node three_posts (- 1) = None"
    and "neighbour_node three_posts 3 = None"
    by simp_all
  moreover from t n have "neighbour_node three_posts 1 = Some (node (three_posts ! nat 1))"
    by simp
  then have "neighbour_node three_posts 1 = Some (mk_node (Some [(''slug'', ''/b/'')]) ''B'')"
    by (simp add: three_posts_def mk_post_def)
  moreover have "fixed_source [?post] blog_posts_query =
      \<lparr>errors = None, data = Some \<lparr>allMarkdownRemark = \<lparr>edges = [?post]\<rparr>\<rparr>\<rparr>"
    and "node_fields (node ?post) = Some [(''slug'', ''/a/'')]"
    by (simp_all add: fixed_source_def mk_post_def mk_node_def)
  with t have "createPages ?bp (fixed_source [?post]) record_page [] =
      (Resolved, [mk_page (Some ''/a/'') None None])"
    by (simp add: mk_page_def)
  ultimately show ?thesis by simp
qed

end
